theory Spec2Isabelle
  imports Complex_Main "HOL-Library.Sublist"
begin

section \<open>Anchor point correction (scripts/fix\_anchor\_points.py)\<close>

text \<open>
  The script reads a table of anchors, asks Nominatim for a point of interest for every
  row, asks Overpass for an entrance node near that point, checks the final point against
  a bounding box and writes the corrected columns and a changelog.

  Modelling decisions:
  \<^item> Python floats are modelled as \<open>real\<close>: the literals of the bounding box are the
    decimal numbers the source writes, and rounding and NaN are left out.
  \<^item> The two HTTP calls are parameters (\<open>requests_get\<close>, \<open>requests_post\<close>): each takes
    the request and the state of the outside world and returns the new world and either
    the decoded JSON or an exception. The exception stands for anything raised inside
    \<open>nominatim_search\<close> or \<open>overpass_find_entrance\<close> (transport, \<open>raise_for_status\<close>,
    decoding, indexing): \<open>main\<close> catches \<open>Exception\<close> around the whole call.
  \<^item> JSON is typed as the services document it: a Nominatim candidate carries numeric
    \<open>lat\<close> and \<open>lon\<close>, so it is a non-empty dictionary (true in \<open>if nom:\<close>) and
    \<open>float(nom["lat"])\<close> does not raise; an Overpass node carries \<open>lat\<close>, \<open>lon\<close> and
    possibly \<open>tags\<close> with string values.
  \<^item> Every HTTP call and every \<open>time.sleep\<close> is logged as an event, in program order.
  \<^item> A table cell that is missing or null is \<open>None\<close>; the text columns of a row hold
    the \<open>str(...)\<close> of their cells.
\<close>

subsection \<open>Configuration\<close>

definition NOMINATIM_SLEEP_S :: real where
  "NOMINATIM_SLEEP_S = 1.1"

definition OVERPASS_SLEEP_S :: real where
  "OVERPASS_SLEEP_S = 1.1"

definition ENTRANCE_RADIUS_M :: nat where
  "ENTRANCE_RADIUS_M = 150"

subsection \<open>Data\<close>

text \<open>An exception caught by \<open>except Exception as e\<close>; \<open>str e\<close> is its message.\<close>

datatype exn = Exception (str: string)

text \<open>One candidate of the Nominatim response, after \<open>float(nom["lat"])\<close>, \<open>float(nom["lon"])\<close>.\<close>

record poi =
  poi_lat :: real
  poi_lon :: real

text \<open>
  One element of the Overpass response. \<open>el_tags = None\<close> stands for a missing or null
  \<open>tags\<close> entry.
\<close>

record element =
  el_lat :: real
  el_lon :: real
  el_tags :: "(string \<rightharpoonup> string) option"

text \<open>
  The effects of the script: \<open>Request k ok\<close> is a call to service \<open>k\<close> that returned
  (\<open>ok\<close>) or raised; \<open>Sleep d\<close> is \<open>time.sleep(d)\<close>.
\<close>

datatype service = Nominatim | Overpass

datatype event = Request service bool | Sleep real

text \<open>
  The outside world: \<open>requests_get\<close> is the request of \<open>nominatim_search\<close> for the query
  string \<open>q\<close>, \<open>requests_post\<close> the request of \<open>overpass_find_entrance\<close> for a radius and
  a point.
\<close>

record 'w env =
  requests_get :: "string \<Rightarrow> 'w \<Rightarrow> (exn + poi list) \<times> 'w"
  requests_post :: "nat \<times> real \<times> real \<Rightarrow> 'w \<Rightarrow> (exn + element list) \<times> 'w"

text \<open>One row of the data frame: the input columns and the nine long-mode columns.\<close>

record row =
  row_id :: string
  name :: string
  postcode :: string
  anchor_type :: string
  subtype :: string
  latitude :: "real option"
  longitude :: "real option"
  lat_corrected :: "real option"
  lon_corrected :: "real option"
  point_intent :: "string option"
  correction_method :: "string option"
  confidence_score :: "int option"
  change_note :: "string option"
  source_checked :: "string option"
  last_verified_date :: "string option"
  needs_manual_review :: "bool option"

text \<open>One dictionary appended to \<open>changelog\<close>.\<close>

record log_entry =
  log_id :: string
  log_name :: string
  log_anchor_type :: string
  log_subtype :: string
  log_postcode :: string
  old_lat :: "real option"
  old_lon :: "real option"
  new_lat :: "real option"
  new_lon :: "real option"
  log_method :: string
  log_confidence :: int
  log_notes :: string

text \<open>
  The local variables of one iteration of the loop in \<open>main\<close> (lines 116 to 122);
  \<open>notes_list\<close> is the variable \<open>notes\<close> and \<open>method_tag\<close> the variable \<open>method\<close>.
\<close>

record vars =
  lat :: "real option"
  lon :: "real option"
  confidence :: int
  needs_review :: bool
  method_tag :: string
  intent :: string
  notes_list :: "string list"

subsection \<open>Helpers of the Python library\<close>

text \<open>\<open>str.strip()\<close> on ASCII text: the whitespace characters are removed at both ends.\<close>

definition is_space :: "char \<Rightarrow> bool" where
  "is_space c = (of_char c \<in> {9, 10, 11, 12, 13, 28, 29, 30, 31, 32 :: nat})"

definition py_strip :: "string \<Rightarrow> string" where
  "py_strip s = rev (dropWhile is_space (rev (dropWhile is_space s)))"

text \<open>\<open>" ".join(notes)\<close>.\<close>

fun join_sp :: "string list \<Rightarrow> string" where
  "join_sp [] = []"
| "join_sp [x] = x"
| "join_sp (x # y # ys) = x @ '' '' @ join_sp (y # ys)"

subsection \<open>The functions of the script\<close>

definition is_plausible_uk :: "real \<Rightarrow> real \<Rightarrow> bool" where
  "is_plausible_uk la lo = (49.8 \<le> la \<and> la \<le> 60.9 \<and> -8.6 \<le> lo \<and> lo \<le> 1.8)"

definition nominatim_search ::
  "'w env \<Rightarrow> string \<Rightarrow> string \<Rightarrow> 'w \<Rightarrow> (exn + poi option) \<times> 'w" where
  "nominatim_search env nm pc w =
     (case requests_get env (nm @ '', '' @ pc @ '', United Kingdom'') w of
        (Inl e, w') \<Rightarrow> (Inl e, w')
      | (Inr data, w') \<Rightarrow> (Inr (case data of [] \<Rightarrow> None | d # _ \<Rightarrow> Some d), w'))"

definition tags_of :: "element \<Rightarrow> (string \<rightharpoonup> string)" where
  "tags_of el = (case el_tags el of None \<Rightarrow> Map.empty | Some t \<Rightarrow> t)"

definition score :: "element \<Rightarrow> nat" where
  "score el =
     (if tags_of el ''entrance'' = Some ''main'' then 0
      else if ''entrance'' \<in> dom (tags_of el) then 1
      else 2)"

text \<open>
  Lines 74 to 76: \<open>els.sort(key=score)\<close>, \<open>best = els[0]\<close> and the returned triple.
  \<open>list.sort\<close> is stable, as \<open>sort_key\<close> is.
\<close>

definition best_of :: "element list \<Rightarrow> (real \<times> real \<times> element) option" where
  "best_of els =
     (case sort_key score els of
        [] \<Rightarrow> None
      | best # _ \<Rightarrow> Some (el_lat best, el_lon best, best))"

definition overpass_find_entrance ::
  "'w env \<Rightarrow> real \<Rightarrow> real \<Rightarrow> nat \<Rightarrow> 'w \<Rightarrow> (exn + (real \<times> real \<times> element) option) \<times> 'w" where
  "overpass_find_entrance env la lo radius_m w =
     (case requests_post env (radius_m, la, lo) w of
        (Inl e, w') \<Rightarrow> (Inl e, w')
      | (Inr els, w') \<Rightarrow> (Inr (if els = [] then None else best_of els), w'))"

text \<open>
  Lines 116 to 171 of \<open>main\<close>: the Nominatim lookup and the entrance snap for one row.
  The result is the local variables before the plausibility check, the events of the
  iteration and the world after it. \<open>time.sleep\<close> stands after the call inside each
  \<open>try\<close>, so it runs only when the call returned.
\<close>

definition lookup :: "'w env \<Rightarrow> string \<Rightarrow> string \<Rightarrow> 'w \<Rightarrow> vars \<times> event list \<times> 'w" where
  "lookup env nm pc w0 =
     (let v0 = \<lparr>lat = None, lon = None, confidence = 0, needs_review = False,
                method_tag = ''fallback'', intent = ''public_entrance'', notes_list = []\<rparr>;
          (r_nom, w1) = nominatim_search env nm pc w0;
          (nom, v1, ev1) =
            (case r_nom of
               Inr n \<Rightarrow>
                 (n, v0\<lparr>notes_list := notes_list v0 @ [''Nominatim OK'']\<rparr>,
                  [Request Nominatim True, Sleep NOMINATIM_SLEEP_S])
             | Inl e \<Rightarrow>
                 (None,
                  v0\<lparr>notes_list := notes_list v0 @ [''Nominatim failed: '' @ str e],
                     needs_review := True\<rparr>,
                  [Request Nominatim False]))
      in case nom of
           Some p \<Rightarrow>
             (let v2 = v1\<lparr>lat := Some (poi_lat p), lon := Some (poi_lon p),
                         method_tag := ''nominatim_poi'', confidence := 65,
                         notes_list := notes_list v1 @ [''Nominatim POI match'']\<rparr>;
                  (r_ent, w2) =
                    overpass_find_entrance env (poi_lat p) (poi_lon p) ENTRANCE_RADIUS_M w1;
                  (ent, v3, ev2) =
                    (case r_ent of
                       Inr c \<Rightarrow>
                         (c, v2\<lparr>notes_list := notes_list v2 @ [''Overpass OK'']\<rparr>,
                          [Request Overpass True, Sleep OVERPASS_SLEEP_S])
                     | Inl e \<Rightarrow>
                         (None,
                          v2\<lparr>notes_list := notes_list v2 @ [''Overpass failed: '' @ str e],
                             needs_review := True\<rparr>,
                          [Request Overpass False]))
              in case ent of
                   Some (la, lo, el) \<Rightarrow>
                     (v3\<lparr>lat := Some la, lon := Some lo,
                         method_tag := ''overpass_entrance'', confidence := 85,
                         intent := (if tags_of el ''entrance'' = Some ''main''
                                    then ''main_entrance'' else ''entrance_nearby''),
                         notes_list := notes_list v3 @ [''Entrance node found'']\<rparr>,
                      ev1 @ ev2, w2)
                 | None \<Rightarrow>
                     (v3\<lparr>needs_review := True,
                         notes_list := notes_list v3 @
                           [''No entrance node; using POI location (likely centroid/site point)''],
                         confidence := 60\<rparr>,
                      ev1 @ ev2, w2))
         | None \<Rightarrow>
             (v1\<lparr>needs_review := True,
                 notes_list := notes_list v1 @ [''No geocode match''],
                 confidence := 0, method_tag := ''no_match''\<rparr>,
              ev1, w1))"

text \<open>Lines 173 to 181: the final plausibility check.\<close>

definition finalize :: "vars \<Rightarrow> vars" where
  "finalize v =
     (if lat v = None \<or> lon v = None
      then v\<lparr>needs_review := True,
             notes_list := notes_list v @ [''Missing coordinates''],
             confidence := 0\<rparr>
      else if \<not> is_plausible_uk (the (lat v)) (the (lon v))
      then v\<lparr>needs_review := True,
             notes_list := notes_list v @ [''Implausible UK bounds''],
             confidence := min (confidence v) 20\<rparr>
      else v)"

text \<open>Lines 108 to 181: one iteration up to the final values of the local variables.\<close>

definition process_record :: "'w env \<Rightarrow> row \<Rightarrow> 'w \<Rightarrow> vars \<times> event list \<times> 'w" where
  "process_record env r w =
     (case lookup env (py_strip (name r)) (py_strip (postcode r)) w of
        (v, ev, w') \<Rightarrow> (finalize v, ev, w'))"

text \<open>Lines 184 to 192: the nine assignments \<open>df.at[idx, ...] = ...\<close>.\<close>

definition write_results :: "string \<Rightarrow> row \<Rightarrow> vars \<Rightarrow> row" where
  "write_results today r v =
     r\<lparr>lat_corrected := lat v,
       lon_corrected := lon v,
       point_intent := Some (intent v),
       correction_method := Some (method_tag v),
       confidence_score := Some (confidence v),
       change_note := Some (join_sp (notes_list v)),
       source_checked := Some ''OSM:Nominatim; OSM:Overpass'',
       last_verified_date := Some today,
       needs_manual_review := Some (needs_review v)\<rparr>"

text \<open>Lines 194 to 209: the dictionary appended to \<open>changelog\<close>.\<close>

definition changelog_entry :: "row \<Rightarrow> vars \<Rightarrow> log_entry" where
  "changelog_entry r v =
     \<lparr>log_id = row_id r,
      log_name = py_strip (name r),
      log_anchor_type = py_strip (anchor_type r),
      log_subtype = py_strip (subtype r),
      log_postcode = py_strip (postcode r),
      old_lat = latitude r,
      old_lon = longitude r,
      new_lat = lat v,
      new_lon = lon v,
      log_method = method_tag v,
      log_confidence = confidence v,
      log_notes = join_sp (notes_list v)\<rparr>"

text \<open>
  The loop of \<open>main\<close> (lines 107 to 209) over the rows in order, and \<open>main\<close> itself: the
  data frame written to the output file, the changelog, the events and the final world.
\<close>

fun rows_loop ::
  "'w env \<Rightarrow> string \<Rightarrow> row list \<Rightarrow> 'w \<Rightarrow> row list \<times> log_entry list \<times> event list \<times> 'w" where
  "rows_loop env today [] w = ([], [], [], w)"
| "rows_loop env today (r # rs) w =
     (case process_record env r w of
        (v, ev, w1) \<Rightarrow>
          (case rows_loop env today rs w1 of
             (out, changelog, evs, w2) \<Rightarrow>
               (write_results today r v # out, changelog_entry r v # changelog, ev @ evs, w2)))"

definition main ::
  "'w env \<Rightarrow> string \<Rightarrow> row list \<Rightarrow> 'w \<Rightarrow> row list \<times> log_entry list \<times> event list \<times> 'w" where
  "main env today df w = rows_loop env today df w"

definition out_rows :: "row list \<times> log_entry list \<times> event list \<times> 'w \<Rightarrow> row list" where
  "out_rows res = fst res"

definition changelog_of :: "row list \<times> log_entry list \<times> event list \<times> 'w \<Rightarrow> log_entry list" where
  "changelog_of res = fst (snd res)"

definition events_of :: "row list \<times> log_entry list \<times> event list \<times> 'w \<Rightarrow> event list" where
  "events_of res = fst (snd (snd res))"

subsection \<open>Properties stated about runs\<close>

text \<open>
  What one iteration persists for row \<open>r\<close> when it starts in world \<open>w\<close>: the row of
  the output data frame and the changelog entry.
\<close>

definition persisted_row :: "'w env \<Rightarrow> string \<Rightarrow> row \<Rightarrow> 'w \<Rightarrow> row" where
  "persisted_row env today r w = write_results today r (fst (process_record env r w))"

definition persisted_entry :: "'w env \<Rightarrow> row \<Rightarrow> 'w \<Rightarrow> log_entry" where
  "persisted_entry env r w = changelog_entry r (fst (process_record env r w))"

text \<open>The worlds in which the rows of a data frame are processed, one after the other.\<close>

fun worlds :: "'w env \<Rightarrow> row list \<Rightarrow> 'w \<Rightarrow> 'w list" where
  "worlds env [] w = []"
| "worlds env (r # rs) w = w # worlds env rs (snd (snd (process_record env r w)))"

text \<open>
  A re-run reads the output of a run with the corrected coordinates taken as the new
  original coordinates.
\<close>

definition rerun_input :: "row \<Rightarrow> row" where
  "rerun_input r = r\<lparr>latitude := lat_corrected r, longitude := lon_corrected r\<rparr>"

text \<open>The columns a run computes for a row, the date of the run apart.\<close>

definition corrected_columns ::
  "row \<Rightarrow> real option \<times> real option \<times> string option \<times> string option \<times> int option
     \<times> string option \<times> string option \<times> bool option" where
  "corrected_columns r =
     (lat_corrected r, lon_corrected r, point_intent r, correction_method r,
      confidence_score r, change_note r, source_checked r, needs_manual_review r)"

text \<open>
  Throttling, read off the events. \<open>slept_before_next k es\<close> is the time the script
  sleeps in \<open>es\<close> before the next request to service \<open>k\<close>, if there is one. After a
  call has ended this is the delay the script itself puts before that request; how long
  a call takes is up to the service (a call can fail at once) and is not modelled.
\<close>

fun min_interval :: "service \<Rightarrow> real" where
  "min_interval Nominatim = NOMINATIM_SLEEP_S"
| "min_interval Overpass = OVERPASS_SLEEP_S"

fun slept_before_next :: "service \<Rightarrow> event list \<Rightarrow> real option" where
  "slept_before_next k [] = None"
| "slept_before_next k (Sleep d # es) = map_option ((+) d) (slept_before_next k es)"
| "slept_before_next k (Request k' ok # es) =
     (if k' = k then Some 0 else slept_before_next k es)"

text \<open>
  \<open>throttled\<close>: after every request the script sleeps at least the interval of the
  service before the next request to the same service. \<open>throttled_after_success\<close> asks
  this only after a request that returned.
\<close>

fun throttled :: "event list \<Rightarrow> bool" where
  "throttled [] = True"
| "throttled (Sleep d # es) = throttled es"
| "throttled (Request k ok # es) =
     ((case slept_before_next k es of None \<Rightarrow> True | Some d \<Rightarrow> min_interval k \<le> d)
      \<and> throttled es)"

fun throttled_after_success :: "event list \<Rightarrow> bool" where
  "throttled_after_success [] = True"
| "throttled_after_success (Sleep d # es) = throttled_after_success es"
| "throttled_after_success (Request k ok # es) =
     ((if ok
       then (case slept_before_next k es of None \<Rightarrow> True | Some d \<Rightarrow> min_interval k \<le> d)
       else True)
      \<and> throttled_after_success es)"

text \<open>\<open>sleep_follows_success\<close>: the event after a request that returned is its sleep.\<close>

fun sleep_follows_success :: "event list \<Rightarrow> bool" where
  "sleep_follows_success [] = True"
| "sleep_follows_success (Request k True # es) =
     ((case es of Sleep d # _ \<Rightarrow> d = min_interval k | _ \<Rightarrow> False)
      \<and> sleep_follows_success es)"
| "sleep_follows_success (e # es) = sleep_follows_success es"

subsection \<open>Scenarios\<close>

text \<open>
  Concrete services and rows, used to run the definitions. The world of these services
  counts the requests made so far.
\<close>

definition el_highway :: element where
  "el_highway = \<lparr>el_lat = 54.9703, el_lon = -1.6097,
                  el_tags = Some [''highway'' \<mapsto> ''entrance'']\<rparr>"

definition el_main :: element where
  "el_main = \<lparr>el_lat = 54.9701, el_lon = -1.6099,
               el_tags = Some [''entrance'' \<mapsto> ''main'']\<rparr>"

definition el_yes :: element where
  "el_yes = \<lparr>el_lat = 54.9702, el_lon = -1.6098,
              el_tags = Some [''entrance'' \<mapsto> ''yes'']\<rparr>"

definition poi_newcastle :: poi where
  "poi_newcastle = \<lparr>poi_lat = 54.97, poi_lon = -1.61\<rparr>"

definition poi_north :: poi where
  "poi_north = \<lparr>poi_lat = 61.0, poi_lon = 0.0\<rparr>"

text \<open>Both services answer; Overpass returns three nodes scoring 2, 0 and 1.\<close>

definition env_entrance :: "nat env" where
  "env_entrance =
     \<lparr>requests_get = (\<lambda>q w. (Inr [poi_newcastle], Suc w)),
      requests_post = (\<lambda>q w. (Inr [el_highway, el_main, el_yes], Suc w))\<rparr>"

text \<open>Nominatim answers with an empty list.\<close>

definition env_empty :: "nat env" where
  "env_empty =
     \<lparr>requests_get = (\<lambda>q w. (Inr [], Suc w)),
      requests_post = (\<lambda>q w. (Inr [], Suc w))\<rparr>"

text \<open>Both services raise.\<close>

definition env_down :: "nat env" where
  "env_down =
     \<lparr>requests_get = (\<lambda>q w. (Inl (Exception ''503 Server Error''), Suc w)),
      requests_post = (\<lambda>q w. (Inl (Exception ''timed out''), Suc w))\<rparr>"

text \<open>Nominatim returns a point north of the box, Overpass raises.\<close>

definition env_north :: "nat env" where
  "env_north =
     \<lparr>requests_get = (\<lambda>q w. (Inr [poi_north], Suc w)),
      requests_post = (\<lambda>q w. (Inl (Exception ''timed out''), Suc w))\<rparr>"

definition row_acme :: row where
  "row_acme =
     \<lparr>row_id = ''1'', name = '' Acme Library'', postcode = ''NE1 1AA'',
      anchor_type = ''library'', subtype = ''public'',
      latitude = None, longitude = None,
      lat_corrected = None, lon_corrected = None, point_intent = None,
      correction_method = None, confidence_score = None, change_note = None,
      source_checked = None, last_verified_date = None, needs_manual_review = None\<rparr>"

definition row_hall :: row where
  "row_hall =
     \<lparr>row_id = ''2'', name = ''Town Hall'', postcode = ''NE30 1AA'',
      anchor_type = ''civic'', subtype = ''hall'',
      latitude = Some 55.0, longitude = Some (-1.45),
      lat_corrected = None, lon_corrected = None, point_intent = None,
      correction_method = None, confidence_score = None, change_note = None,
      source_checked = None, last_verified_date = None, needs_manual_review = None\<rparr>"

text \<open>The first row again, with other coordinates and with corrected columns already filled.\<close>

definition row_acme_moved :: row where
  "row_acme_moved =
     row_acme\<lparr>latitude := Some 51.5, longitude := Some (-0.12),
              lat_corrected := Some 51.5, lon_corrected := Some (-0.12),
              point_intent := Some ''public_entrance'',
              correction_method := Some ''nominatim_poi'',
              confidence_score := Some 60, needs_manual_review := Some True\<rparr>"

section \<open>Auxiliary lemmas\<close>

subsection \<open>The head of a stably sorted list\<close>

lemma hd_sort_key_filter:
  assumes "xs \<noteq> []"
  shows "hd (sort_key f xs) = hd (filter (\<lambda>y. f y = f (hd (sort_key f xs))) xs)"
proof -
  let ?s = "sort_key f xs"
  have ne: "?s \<noteq> []" using assms by (metis length_sort length_0_conv)
  have "filter (\<lambda>y. f y = f (hd ?s)) ?s = filter (\<lambda>y. f y = f (hd ?s)) xs"
    by (rule sort_key_stable)
  moreover have "hd (filter (\<lambda>y. f y = f (hd ?s)) ?s) = hd ?s"
    using ne by (cases ?s) auto
  ultimately show ?thesis by simp
qed

lemma hd_sort_key_le:
  assumes "x \<in> set xs"
  shows "f (hd (sort_key f xs)) \<le> f x"
proof -
  let ?s = "sort_key f xs"
  have "sorted (map f ?s)" by simp
  moreover have "x \<in> set ?s" using assms by simp
  ultimately show ?thesis by (cases ?s) auto
qed

lemma hd_sort_key_first_min:
  fixes f :: "'a \<Rightarrow> nat"
  assumes "xs \<noteq> []"
  shows "\<exists>i < length xs. hd (sort_key f xs) = xs ! i
     \<and> (\<forall>j < length xs. f (xs ! i) \<le> f (xs ! j))
     \<and> (\<forall>j < i. f (xs ! i) < f (xs ! j))"
proof -
  let ?b = "hd (sort_key f xs)"
  let ?P = "\<lambda>y. f y = f ?b"
  have "sort_key f xs \<noteq> []" using assms by (metis length_sort length_0_conv)
  then have "?b \<in> set (sort_key f xs)" by (rule hd_in_set)
  then have "?b \<in> set xs" by simp
  then have "\<exists>x \<in> set xs. ?P x" by blast
  then obtain ys x zs where split: "xs = ys @ x # zs" "?P x" "\<forall>y \<in> set ys. \<not> ?P y"
    using split_list_first_prop [of xs ?P] by blast
  have "filter ?P xs = x # filter ?P zs"
    using split by simp
  then have bx: "?b = x"
    using hd_sort_key_filter [OF assms, of f] by simp
  have le: "f ?b \<le> f y" if "y \<in> set xs" for y
    using that by (rule hd_sort_key_le)
  have i: "length ys < length xs" "xs ! length ys = x"
    using split(1) by simp_all
  have "f x \<le> f (xs ! j)" if "j < length xs" for j
    using le [of "xs ! j"] that bx by simp
  moreover have "f x < f (xs ! j)" if "j < length ys" for j
  proof -
    have "xs ! j = ys ! j" using that split(1) by (simp add: nth_append)
    moreover have "ys ! j \<in> set ys" using that by simp
    ultimately have "f (xs ! j) \<noteq> f x" "xs ! j \<in> set xs" using split bx by auto
    then show ?thesis using le [of "xs ! j"] bx by simp
  qed
  ultimately show ?thesis using i bx by blast
qed

lemma best_of_hd:
  "els \<noteq> [] \<Longrightarrow>
   best_of els = (let b = hd (sort_key score els) in Some (el_lat b, el_lon b, b))"
  unfolding best_of_def
  by (cases "sort_key score els") (auto simp: Let_def dest: arg_cong [where f = length])

lemma scenario_scores: "score el_highway = 2" "score el_main = 0" "score el_yes = 1"
  by (simp_all add: score_def tags_of_def el_highway_def el_main_def el_yes_def)

section \<open>The entrance snapper\<close>

text \<open>
  C4. When the Overpass response is a non-empty list, \<open>overpass_find_entrance\<close> returns an
  element of it whose score is minimal, and no element before it in the response has the
  same score: among the elements of minimal score it is the first. For a response of
  three elements scoring 2, 0 and 1 in this order it returns the second. The score is 0
  exactly when the entrance tag is "main", 1 exactly when the element has an entrance tag
  with another value, and 2 exactly when it has no entrance tag.
\<close>

theorem find_entrance_selects_first_minimal:
  "(requests_post env (radius_m, la, lo) w = (Inr els, w') \<and> els \<noteq> [] \<longrightarrow>
      (\<exists>i < length els.
         overpass_find_entrance env la lo radius_m w =
           (Inr (Some (el_lat (els ! i), el_lon (els ! i), els ! i)), w')
         \<and> (\<forall>j < length els. score (els ! i) \<le> score (els ! j))
         \<and> (\<forall>j < i. score (els ! i) < score (els ! j))))
   \<and> (requests_post env (radius_m, la, lo) w = (Inr [a, b, c], w')
        \<and> score a = 2 \<and> score b = 0 \<and> score c = 1 \<longrightarrow>
      overpass_find_entrance env la lo radius_m w = (Inr (Some (el_lat b, el_lon b, b)), w'))
   \<and> (score el = 0 \<longleftrightarrow> tags_of el ''entrance'' = Some ''main'')
   \<and> (score el = 1 \<longleftrightarrow> (\<exists>t. tags_of el ''entrance'' = Some t \<and> t \<noteq> ''main''))
   \<and> (score el = 2 \<longleftrightarrow> tags_of el ''entrance'' = None)"
proof (intro conjI impI)
  assume h: "requests_post env (radius_m, la, lo) w = (Inr els, w') \<and> els \<noteq> []"
  then obtain i where i: "i < length els" "hd (sort_key score els) = els ! i"
    "\<forall>j < length els. score (els ! i) \<le> score (els ! j)"
    "\<forall>j < i. score (els ! i) < score (els ! j)"
    using hd_sort_key_first_min [of els score] by blast
  have "overpass_find_entrance env la lo radius_m w =
           (Inr (Some (el_lat (els ! i), el_lon (els ! i), els ! i)), w')"
    using h i(2) by (simp add: overpass_find_entrance_def best_of_hd Let_def)
  then show "\<exists>i < length els.
         overpass_find_entrance env la lo radius_m w =
           (Inr (Some (el_lat (els ! i), el_lon (els ! i), els ! i)), w')
         \<and> (\<forall>j < length els. score (els ! i) \<le> score (els ! j))
         \<and> (\<forall>j < i. score (els ! i) < score (els ! j))"
    using i by blast
next
  assume "requests_post env (radius_m, la, lo) w = (Inr [a, b, c], w')
        \<and> score a = 2 \<and> score b = 0 \<and> score c = 1"
  then show "overpass_find_entrance env la lo radius_m w =
      (Inr (Some (el_lat b, el_lon b, b)), w')"
    by (simp add: overpass_find_entrance_def best_of_def)
next
  show "score el = 0 \<longleftrightarrow> tags_of el ''entrance'' = Some ''main''"
    by (simp add: score_def)
next
  show "score el = 1 \<longleftrightarrow> (\<exists>t. tags_of el ''entrance'' = Some t \<and> t \<noteq> ''main'')"
    by (auto simp: score_def dom_def)
next
  show "score el = 2 \<longleftrightarrow> tags_of el ''entrance'' = None"
    by (auto simp: score_def dom_def)
qed

theorem find_entrance_selects_first_minimal_witness:
  "requests_post env_entrance (150, 54.97, -1.61) 1 = (Inr [el_highway, el_main, el_yes], 2)
   \<and> [el_highway, el_main, el_yes] \<noteq> []
   \<and> score el_highway = 2 \<and> score el_main = 0 \<and> score el_yes = 1
   \<and> (\<exists>i < length [el_highway, el_main, el_yes].
         overpass_find_entrance env_entrance 54.97 (-1.61) 150 1 =
           (Inr (Some (el_lat ([el_highway, el_main, el_yes] ! i),
                       el_lon ([el_highway, el_main, el_yes] ! i),
                       [el_highway, el_main, el_yes] ! i)), 2)
         \<and> (\<forall>j < length [el_highway, el_main, el_yes].
               score ([el_highway, el_main, el_yes] ! i)
                 \<le> score ([el_highway, el_main, el_yes] ! j))
         \<and> (\<forall>j < i. score ([el_highway, el_main, el_yes] ! i)
                      < score ([el_highway, el_main, el_yes] ! j)))
   \<and> overpass_find_entrance env_entrance 54.97 (-1.61) 150 1 =
       (Inr (Some (el_lat el_main, el_lon el_main, el_main)), 2)"
proof -
  have r: "requests_post env_entrance (150, 54.97, -1.61) 1 =
      (Inr [el_highway, el_main, el_yes], 2)"
    by (simp add: env_entrance_def)
  have ne: "[el_highway, el_main, el_yes] \<noteq> []"
    by simp
  note t = find_entrance_selects_first_minimal
        [of env_entrance 150 "54.97" "-1.61" 1 "[el_highway, el_main, el_yes]" 2
            el_highway el_main el_yes]
  have first: "\<exists>i < length [el_highway, el_main, el_yes].
         overpass_find_entrance env_entrance 54.97 (-1.61) 150 1 =
           (Inr (Some (el_lat ([el_highway, el_main, el_yes] ! i),
                       el_lon ([el_highway, el_main, el_yes] ! i),
                       [el_highway, el_main, el_yes] ! i)), 2)
         \<and> (\<forall>j < length [el_highway, el_main, el_yes].
               score ([el_highway, el_main, el_yes] ! i)
                 \<le> score ([el_highway, el_main, el_yes] ! j))
         \<and> (\<forall>j < i. score ([el_highway, el_main, el_yes] ! i)
                      < score ([el_highway, el_main, el_yes] ! j))"
    using t r ne by blast
  have second: "overpass_find_entrance env_entrance 54.97 (-1.61) 150 1 =
       (Inr (Some (el_lat el_main, el_lon el_main, el_main)), 2)"
    using t r scenario_scores by blast
  show ?thesis
    using r ne scenario_scores first second by blast
qed

section \<open>The orchestrator\<close>

subsection \<open>The five paths of one iteration\<close>

text \<open>
  The lookup of one row takes one of five paths: Nominatim raised; Nominatim returned no
  candidate; Nominatim returned a candidate and Overpass raised, returned no element, or
  returned an entrance.
\<close>

lemma lookup_nominatim_failed:
  assumes "nominatim_search env nm pc w = (Inl e, w1)"
  shows "lookup env nm pc w =
     (\<lparr>lat = None, lon = None, confidence = 0, needs_review = True,
       method_tag = ''no_match'', intent = ''public_entrance'',
       notes_list = [''Nominatim failed: '' @ str e, ''No geocode match'']\<rparr>,
      [Request Nominatim False], w1)"
  using assms by (simp add: lookup_def)

lemma lookup_no_match:
  assumes "nominatim_search env nm pc w = (Inr None, w1)"
  shows "lookup env nm pc w =
     (\<lparr>lat = None, lon = None, confidence = 0, needs_review = True,
       method_tag = ''no_match'', intent = ''public_entrance'',
       notes_list = [''Nominatim OK'', ''No geocode match'']\<rparr>,
      [Request Nominatim True, Sleep NOMINATIM_SLEEP_S], w1)"
  using assms by (simp add: lookup_def)

lemma lookup_overpass_failed:
  assumes "nominatim_search env nm pc w = (Inr (Some p), w1)"
    and "overpass_find_entrance env (poi_lat p) (poi_lon p) ENTRANCE_RADIUS_M w1 = (Inl e, w2)"
  shows "lookup env nm pc w =
     (\<lparr>lat = Some (poi_lat p), lon = Some (poi_lon p), confidence = 60, needs_review = True,
       method_tag = ''nominatim_poi'', intent = ''public_entrance'',
       notes_list = [''Nominatim OK'', ''Nominatim POI match'', ''Overpass failed: '' @ str e,
         ''No entrance node; using POI location (likely centroid/site point)'']\<rparr>,
      [Request Nominatim True, Sleep NOMINATIM_SLEEP_S, Request Overpass False], w2)"
  using assms by (simp add: lookup_def)

lemma lookup_no_entrance:
  assumes "nominatim_search env nm pc w = (Inr (Some p), w1)"
    and "overpass_find_entrance env (poi_lat p) (poi_lon p) ENTRANCE_RADIUS_M w1 = (Inr None, w2)"
  shows "lookup env nm pc w =
     (\<lparr>lat = Some (poi_lat p), lon = Some (poi_lon p), confidence = 60, needs_review = True,
       method_tag = ''nominatim_poi'', intent = ''public_entrance'',
       notes_list = [''Nominatim OK'', ''Nominatim POI match'', ''Overpass OK'',
         ''No entrance node; using POI location (likely centroid/site point)'']\<rparr>,
      [Request Nominatim True, Sleep NOMINATIM_SLEEP_S, Request Overpass True,
       Sleep OVERPASS_SLEEP_S], w2)"
  using assms by (simp add: lookup_def)

lemma lookup_entrance:
  assumes "nominatim_search env nm pc w = (Inr (Some p), w1)"
    and "overpass_find_entrance env (poi_lat p) (poi_lon p) ENTRANCE_RADIUS_M w1 =
           (Inr (Some (la, lo, el)), w2)"
  shows "lookup env nm pc w =
     (\<lparr>lat = Some la, lon = Some lo, confidence = 85, needs_review = False,
       method_tag = ''overpass_entrance'',
       intent = (if tags_of el ''entrance'' = Some ''main''
                 then ''main_entrance'' else ''entrance_nearby''),
       notes_list = [''Nominatim OK'', ''Nominatim POI match'', ''Overpass OK'',
         ''Entrance node found'']\<rparr>,
      [Request Nominatim True, Sleep NOMINATIM_SLEEP_S, Request Overpass True,
       Sleep OVERPASS_SLEEP_S], w2)"
  using assms by (simp add: lookup_def)


lemma lookup_cases:
  obtains (nominatim_failed) e w1 where "nominatim_search env nm pc w = (Inl e, w1)"
  | (no_match) w1 where "nominatim_search env nm pc w = (Inr None, w1)"
  | (overpass_failed) p w1 e w2 where "nominatim_search env nm pc w = (Inr (Some p), w1)"
      "overpass_find_entrance env (poi_lat p) (poi_lon p) ENTRANCE_RADIUS_M w1 = (Inl e, w2)"
  | (no_entrance) p w1 w2 where "nominatim_search env nm pc w = (Inr (Some p), w1)"
      "overpass_find_entrance env (poi_lat p) (poi_lon p) ENTRANCE_RADIUS_M w1 = (Inr None, w2)"
  | (entrance) p w1 la lo el w2 where "nominatim_search env nm pc w = (Inr (Some p), w1)"
      "overpass_find_entrance env (poi_lat p) (poi_lon p) ENTRANCE_RADIUS_M w1 =
         (Inr (Some (la, lo, el)), w2)"
proof -
  obtain r w1 where n: "nominatim_search env nm pc w = (r, w1)" by (cases "nominatim_search env nm pc w")
  show thesis
  proof (cases r)
    case (Inl e)
    then show thesis using n nominatim_failed by simp
  next
    case (Inr x)
    show thesis
    proof (cases x)
      case None
      then show thesis using n Inr no_match by simp
    next
      case (Some p)
      obtain r2 w2 where o: "overpass_find_entrance env (poi_lat p) (poi_lon p) ENTRANCE_RADIUS_M w1 = (r2, w2)"
        by (cases "overpass_find_entrance env (poi_lat p) (poi_lon p) ENTRANCE_RADIUS_M w1")
      show thesis
      proof (cases r2)
        case (Inl e)
        then show thesis using n Inr Some o overpass_failed by simp
      next
        case r2: (Inr c)
        show thesis
        proof (cases c)
          case None
          then show thesis using n Inr Some o r2 no_entrance by simp
        next
          case c: (Some t)
          obtain la lo el where "t = (la, lo, el)" by (cases t)
          then show thesis using n Inr Some o r2 c entrance by simp
        qed
      qed
    qed
  qed
qed



lemma process_record_lookup:
  "lookup env (py_strip (name r)) (py_strip (postcode r)) w = (v, ev, w') \<Longrightarrow>
   process_record env r w = (finalize v, ev, w')"
  by (simp add: process_record_def)

lemma finalize_fields:
  "method_tag (finalize v) = method_tag v" "intent (finalize v) = intent v"
  "lat (finalize v) = lat v" "lon (finalize v) = lon v"
  by (simp_all add: finalize_def)

lemma final_method_cases:
  "method_tag (fst (process_record env r w)) \<in> {''overpass_entrance'', ''nominatim_poi'', ''no_match''}"
proof (cases rule: lookup_cases [of env "py_strip (name r)" "py_strip (postcode r)" w])
  case (nominatim_failed e w1)
  then show ?thesis
    by (simp add: process_record_lookup [OF lookup_nominatim_failed] finalize_def)
next
  case (no_match w1)
  then show ?thesis
    by (simp add: process_record_lookup [OF lookup_no_match] finalize_def)
next
  case (overpass_failed p w1 e w2)
  then show ?thesis
    by (simp add: process_record_lookup [OF lookup_overpass_failed] finalize_def)
next
  case (no_entrance p w1 w2)
  then show ?thesis
    by (simp add: process_record_lookup [OF lookup_no_entrance] finalize_def)
next
  case (entrance p w1 la lo el w2)
  then show ?thesis
    by (simp add: process_record_lookup [OF lookup_entrance] finalize_def)
qed

lemma final_no_match:
  assumes "method_tag (fst (process_record env r w)) = ''no_match''"
  shows "lat (fst (process_record env r w)) = None
     \<and> lon (fst (process_record env r w)) = None
     \<and> confidence (fst (process_record env r w)) = 0
     \<and> needs_review (fst (process_record env r w))"
proof (cases rule: lookup_cases [of env "py_strip (name r)" "py_strip (postcode r)" w])
  case (nominatim_failed e w1)
  then show ?thesis
    by (simp add: process_record_lookup [OF lookup_nominatim_failed] finalize_def)
next
  case (no_match w1)
  then show ?thesis
    by (simp add: process_record_lookup [OF lookup_no_match] finalize_def)
next
  case (overpass_failed p w1 e w2)
  then have "method_tag (fst (process_record env r w)) = ''nominatim_poi''"
    by (simp add: process_record_lookup [OF lookup_overpass_failed] finalize_fields)
  then show ?thesis using assms by simp
next
  case (no_entrance p w1 w2)
  then have "method_tag (fst (process_record env r w)) = ''nominatim_poi''"
    by (simp add: process_record_lookup [OF lookup_no_entrance] finalize_fields)
  then show ?thesis using assms by simp
next
  case (entrance p w1 la lo el w2)
  then have "method_tag (fst (process_record env r w)) = ''overpass_entrance''"
    by (simp add: process_record_lookup [OF lookup_entrance] finalize_fields)
  then show ?thesis using assms by simp
qed

lemma out_rows_elem:
  "r' \<in> set (out_rows (main env today df w)) \<Longrightarrow>
   \<exists>r w0. r \<in> set df \<and> r' = write_results today r (fst (process_record env r w0))"
proof (induction df arbitrary: w)
  case Nil
  then show ?case by (simp add: main_def out_rows_def)
next
  case (Cons a df)
  obtain v ev w1 where p: "process_record env a w = (v, ev, w1)"
    by (cases "process_record env a w")
  obtain out cl evs w2 where l: "rows_loop env today df w1 = (out, cl, evs, w2)"
    by (cases "rows_loop env today df w1")
  from Cons.prems p l have "r' = write_results today a v \<or> r' \<in> set out"
    by (simp add: main_def out_rows_def)
  then show ?case
  proof
    assume "r' = write_results today a v"
    then have "r' = write_results today a (fst (process_record env a w))" using p by simp
    then show ?thesis by auto
  next
    assume "r' \<in> set out"
    then have "r' \<in> set (out_rows (main env today df w1))"
      using l by (simp add: main_def out_rows_def)
    from Cons.IH [OF this] show ?thesis by auto
  qed
qed

lemma changelog_elem:
  "e \<in> set (changelog_of (main env today df w)) \<Longrightarrow>
   \<exists>r w0. r \<in> set df \<and> e = changelog_entry r (fst (process_record env r w0))"
proof (induction df arbitrary: w)
  case Nil
  then show ?case by (simp add: main_def changelog_of_def)
next
  case (Cons a df)
  obtain v ev w1 where p: "process_record env a w = (v, ev, w1)"
    by (cases "process_record env a w")
  obtain out cl evs w2 where l: "rows_loop env today df w1 = (out, cl, evs, w2)"
    by (cases "rows_loop env today df w1")
  from Cons.prems p l have "e = changelog_entry a v \<or> e \<in> set cl"
    by (simp add: main_def changelog_of_def)
  then show ?case
  proof
    assume "e = changelog_entry a v"
    then have "e = changelog_entry a (fst (process_record env a w))" using p by simp
    then show ?thesis by auto
  next
    assume "e \<in> set cl"
    then have "e \<in> set (changelog_of (main env today df w1))"
      using l by (simp add: main_def changelog_of_def)
    from Cons.IH [OF this] show ?thesis by auto
  qed
qed

subsection \<open>Runs of the scenarios\<close>

lemma run_empty_acme:
  "process_record env_empty row_acme 0 =
     (\<lparr>lat = None, lon = None, confidence = 0, needs_review = True,
       method_tag = ''no_match'', intent = ''public_entrance'',
       notes_list = [''Nominatim OK'', ''No geocode match'', ''Missing coordinates'']\<rparr>,
      [Request Nominatim True, Sleep NOMINATIM_SLEEP_S], 1)"
  by (simp add: process_record_def lookup_def nominatim_search_def env_empty_def finalize_def)

lemma run_entrance_acme:
  "process_record env_entrance row_acme 0 =
     (\<lparr>lat = Some 54.9701, lon = Some (-1.6099), confidence = 85, needs_review = False,
       method_tag = ''overpass_entrance'', intent = ''main_entrance'',
       notes_list = [''Nominatim OK'', ''Nominatim POI match'', ''Overpass OK'',
         ''Entrance node found'']\<rparr>,
      [Request Nominatim True, Sleep NOMINATIM_SLEEP_S, Request Overpass True,
       Sleep OVERPASS_SLEEP_S], 2)"
proof -
  have n: "nominatim_search env_entrance (py_strip (name row_acme))
      (py_strip (postcode row_acme)) 0 = (Inr (Some poi_newcastle), 1)"
    by (simp add: nominatim_search_def env_entrance_def)
  have o: "overpass_find_entrance env_entrance (poi_lat poi_newcastle) (poi_lon poi_newcastle)
      ENTRANCE_RADIUS_M 1 = (Inr (Some (el_lat el_main, el_lon el_main, el_main)), 2)"
    by (simp add: overpass_find_entrance_def env_entrance_def best_of_def scenario_scores)
  have pl: "is_plausible_uk (el_lat el_main) (el_lon el_main)"
    by (simp add: is_plausible_uk_def el_main_def)
  show ?thesis
    using pl
    by (simp add: process_record_lookup [OF lookup_entrance [OF n o]] finalize_def)
      (simp add: el_main_def tags_of_def)
qed

lemma run_down_acme:
  "process_record env_down row_acme 0 =
     (\<lparr>lat = None, lon = None, confidence = 0, needs_review = True,
       method_tag = ''no_match'', intent = ''public_entrance'',
       notes_list = [''Nominatim failed: 503 Server Error'', ''No geocode match'',
         ''Missing coordinates'']\<rparr>,
      [Request Nominatim False], 1)"
  by (simp add: process_record_def lookup_def nominatim_search_def env_down_def finalize_def)

lemma run_north_acme:
  "process_record env_north row_acme 0 =
     (\<lparr>lat = Some 61, lon = Some 0, confidence = 20, needs_review = True,
       method_tag = ''nominatim_poi'', intent = ''public_entrance'',
       notes_list = [''Nominatim OK'', ''Nominatim POI match'', ''Overpass failed: timed out'',
         ''No entrance node; using POI location (likely centroid/site point)'',
         ''Implausible UK bounds'']\<rparr>,
      [Request Nominatim True, Sleep NOMINATIM_SLEEP_S, Request Overpass False], 2)"
proof -
  have n: "nominatim_search env_north (py_strip (name row_acme))
      (py_strip (postcode row_acme)) 0 = (Inr (Some poi_north), 1)"
    by (simp add: nominatim_search_def env_north_def)
  have o: "overpass_find_entrance env_north (poi_lat poi_north) (poi_lon poi_north)
      ENTRANCE_RADIUS_M 1 = (Inl (Exception ''timed out''), 2)"
    by (simp add: overpass_find_entrance_def env_north_def)
  show ?thesis
    by (simp add: process_record_lookup [OF lookup_overpass_failed [OF n o]] finalize_def
        is_plausible_uk_def poi_north_def)
qed

subsection \<open>Records without a match\<close>

text \<open>
  C1. In the data frame that \<open>main\<close> writes, every row whose \<open>correction_method\<close> is
  "no_match" has no \<open>lat_corrected\<close> and no \<open>lon_corrected\<close>, \<open>confidence_score\<close> 0 and
  \<open>needs_manual_review\<close> true.
\<close>

theorem no_match_invariant:
  "\<forall>r \<in> set (out_rows (main env today df w)).
     correction_method r = Some ''no_match'' \<longrightarrow>
       lat_corrected r = None \<and> lon_corrected r = None
       \<and> confidence_score r = Some 0 \<and> needs_manual_review r = Some True"
proof (intro ballI impI)
  fix r'
  assume mem: "r' \<in> set (out_rows (main env today df w))"
    and m: "correction_method r' = Some ''no_match''"
  from out_rows_elem [OF mem] obtain r w0
    where r': "r' = write_results today r (fst (process_record env r w0))" by blast
  then have "method_tag (fst (process_record env r w0)) = ''no_match''"
    using m by (simp add: write_results_def)
  from final_no_match [OF this] show "lat_corrected r' = None \<and> lon_corrected r' = None
       \<and> confidence_score r' = Some 0 \<and> needs_manual_review r' = Some True"
    using r' by (simp add: write_results_def)
qed

theorem no_match_invariant_witness:
  "hd (out_rows (main env_empty ''2026-01-15'' [row_acme] 0))
     \<in> set (out_rows (main env_empty ''2026-01-15'' [row_acme] 0))
   \<and> correction_method (hd (out_rows (main env_empty ''2026-01-15'' [row_acme] 0))) = Some ''no_match''
   \<and> lat_corrected (hd (out_rows (main env_empty ''2026-01-15'' [row_acme] 0))) = None
   \<and> lon_corrected (hd (out_rows (main env_empty ''2026-01-15'' [row_acme] 0))) = None
   \<and> confidence_score (hd (out_rows (main env_empty ''2026-01-15'' [row_acme] 0))) = Some 0
   \<and> needs_manual_review (hd (out_rows (main env_empty ''2026-01-15'' [row_acme] 0))) = Some True"
proof -
  let ?out = "out_rows (main env_empty ''2026-01-15'' [row_acme] 0)"
  have mem: "hd ?out \<in> set ?out"
    by (simp add: main_def out_rows_def run_empty_acme)
  have m: "correction_method (hd ?out) = Some ''no_match''"
    by (simp add: main_def out_rows_def run_empty_acme write_results_def)
  show ?thesis
    using mem m no_match_invariant [of env_empty "''2026-01-15''" "[row_acme]" 0] by blast
qed

subsection \<open>The persisted method\<close>

text \<open>
  C7. In the data frame that \<open>main\<close> writes, the \<open>correction_method\<close> of every row is
  "overpass_entrance", "nominatim_poi" or "no_match", and so is the method of every
  changelog entry; the initial value "fallback" is in neither.
\<close>

theorem fallback_never_persisted:
  "(\<forall>r \<in> set (out_rows (main env today df w)).
      correction_method r \<in>
        {Some ''overpass_entrance'', Some ''nominatim_poi'', Some ''no_match''}
      \<and> correction_method r \<noteq> Some ''fallback'')
   \<and> (\<forall>e \<in> set (changelog_of (main env today df w)).
      log_method e \<in> {''overpass_entrance'', ''nominatim_poi'', ''no_match''}
      \<and> log_method e \<noteq> ''fallback'')"
proof (intro conjI ballI)
  fix r'
  assume "r' \<in> set (out_rows (main env today df w))"
  from out_rows_elem [OF this] obtain r w0
    where r': "r' = write_results today r (fst (process_record env r w0))" by blast
  have c: "correction_method r' = Some (method_tag (fst (process_record env r w0)))"
    using r' by (simp add: write_results_def)
  show "correction_method r' \<in>
        {Some ''overpass_entrance'', Some ''nominatim_poi'', Some ''no_match''}"
    using final_method_cases [of env r w0] c by auto
  show "correction_method r' \<noteq> Some ''fallback''"
    using final_method_cases [of env r w0] c by auto
next
  fix e
  assume "e \<in> set (changelog_of (main env today df w))"
  from changelog_elem [OF this] obtain r w0
    where e: "e = changelog_entry r (fst (process_record env r w0))" by blast
  have c: "log_method e = method_tag (fst (process_record env r w0))"
    using e by (simp add: changelog_entry_def)
  show "log_method e \<in> {''overpass_entrance'', ''nominatim_poi'', ''no_match''}"
    using final_method_cases [of env r w0] c by auto
  show "log_method e \<noteq> ''fallback''"
    using final_method_cases [of env r w0] c by auto
qed

theorem fallback_never_persisted_witness:
  "hd (out_rows (main env_entrance ''2026-01-15'' [row_acme] 0))
     \<in> set (out_rows (main env_entrance ''2026-01-15'' [row_acme] 0))
   \<and> hd (changelog_of (main env_entrance ''2026-01-15'' [row_acme] 0))
     \<in> set (changelog_of (main env_entrance ''2026-01-15'' [row_acme] 0))
   \<and> correction_method (hd (out_rows (main env_entrance ''2026-01-15'' [row_acme] 0)))
       \<noteq> Some ''fallback''
   \<and> log_method (hd (changelog_of (main env_entrance ''2026-01-15'' [row_acme] 0)))
       \<noteq> ''fallback''"
proof -
  let ?res = "main env_entrance ''2026-01-15'' [row_acme] 0"
  have mem: "hd (out_rows ?res) \<in> set (out_rows ?res)"
    by (simp add: main_def out_rows_def run_entrance_acme)
  have mem': "hd (changelog_of ?res) \<in> set (changelog_of ?res)"
    by (simp add: main_def changelog_of_def run_entrance_acme)
  show ?thesis
    using mem mem' fallback_never_persisted [of env_entrance "''2026-01-15''" "[row_acme]" 0]
    by blast
qed

subsection \<open>What one iteration persists\<close>

lemma nominatim_search_raised:
  "requests_get env (nm @ '', '' @ pc @ '', United Kingdom'') w = (Inl e, w1) \<Longrightarrow>
   nominatim_search env nm pc w = (Inl e, w1)"
  by (simp add: nominatim_search_def)

lemma nominatim_search_empty:
  "requests_get env (nm @ '', '' @ pc @ '', United Kingdom'') w = (Inr [], w1) \<Longrightarrow>
   nominatim_search env nm pc w = (Inr None, w1)"
  by (simp add: nominatim_search_def)

lemma persisted_row_fields:
  "lat_corrected (persisted_row env today r w) = lat (fst (process_record env r w))"
  "lon_corrected (persisted_row env today r w) = lon (fst (process_record env r w))"
  "point_intent (persisted_row env today r w) = Some (intent (fst (process_record env r w)))"
  "correction_method (persisted_row env today r w) =
     Some (method_tag (fst (process_record env r w)))"
  "confidence_score (persisted_row env today r w) =
     Some (confidence (fst (process_record env r w)))"
  "change_note (persisted_row env today r w) =
     Some (join_sp (notes_list (fst (process_record env r w))))"
  "needs_manual_review (persisted_row env today r w) =
     Some (needs_review (fst (process_record env r w)))"
  by (simp_all add: persisted_row_def write_results_def)

lemma persisted_entry_fields:
  "new_lat (persisted_entry env r w) = lat (fst (process_record env r w))"
  "new_lon (persisted_entry env r w) = lon (fst (process_record env r w))"
  "log_method (persisted_entry env r w) = method_tag (fst (process_record env r w))"
  "log_confidence (persisted_entry env r w) = confidence (fst (process_record env r w))"
  "log_notes (persisted_entry env r w) = join_sp (notes_list (fst (process_record env r w)))"
  by (simp_all add: persisted_entry_def changelog_entry_def)

lemma final_needs_review:
  "needs_review (fst (process_record env r w)) \<longleftrightarrow>
   \<not> (\<exists>p w1 la lo el w2.
        nominatim_search env (py_strip (name r)) (py_strip (postcode r)) w = (Inr (Some p), w1)
        \<and> overpass_find_entrance env (poi_lat p) (poi_lon p) ENTRANCE_RADIUS_M w1 =
            (Inr (Some (la, lo, el)), w2)
        \<and> is_plausible_uk la lo)"
proof (cases rule: lookup_cases [of env "py_strip (name r)" "py_strip (postcode r)" w])
  case (nominatim_failed e w1)
  then show ?thesis
    by (simp add: process_record_lookup [OF lookup_nominatim_failed] finalize_def)
next
  case (no_match w1)
  then show ?thesis
    by (simp add: process_record_lookup [OF lookup_no_match] finalize_def)
next
  case (overpass_failed p w1 e w2)
  then show ?thesis
    by (simp add: process_record_lookup [OF lookup_overpass_failed] finalize_def)
next
  case (no_entrance p w1 w2)
  then show ?thesis
    by (simp add: process_record_lookup [OF lookup_no_entrance] finalize_def)
next
  case (entrance p w1 la lo el w2)
  then show ?thesis
    by (simp add: process_record_lookup [OF lookup_entrance] finalize_def)
qed

subsection \<open>A failed Nominatim request\<close>

text \<open>
  C9. When the Nominatim request of a record raises, the record is persisted as when the
  response is empty: \<open>correction_method\<close> "no_match", no corrected coordinates,
  \<open>confidence_score\<close> 0, \<open>needs_manual_review\<close> true. The change note is
  "Nominatim failed: ", the message of the exception, and " No geocode match Missing
  coordinates", so it contains "Nominatim failed:" and "No geocode match". The method and
  the confidence of the row and of the changelog entry are the same in both cases.
\<close>

theorem nominatim_failure_persisted_as_no_match:
  "(requests_get env
        (py_strip (name r) @ '', '' @ py_strip (postcode r) @ '', United Kingdom'') w
      = (Inl e, w1) \<longrightarrow>
      correction_method (persisted_row env today r w) = Some ''no_match''
      \<and> lat_corrected (persisted_row env today r w) = None
      \<and> lon_corrected (persisted_row env today r w) = None
      \<and> confidence_score (persisted_row env today r w) = Some 0
      \<and> needs_manual_review (persisted_row env today r w) = Some True
      \<and> change_note (persisted_row env today r w) =
          Some (''Nominatim failed: '' @ str e @ '' No geocode match Missing coordinates'')
      \<and> sublist ''Nominatim failed:'' (the (change_note (persisted_row env today r w)))
      \<and> sublist ''No geocode match'' (the (change_note (persisted_row env today r w)))
      \<and> log_method (persisted_entry env r w) = ''no_match''
      \<and> log_confidence (persisted_entry env r w) = 0)
   \<and> (requests_get env'
        (py_strip (name r') @ '', '' @ py_strip (postcode r') @ '', United Kingdom'') w'
      = (Inr [], w1') \<longrightarrow>
      correction_method (persisted_row env' today r' w') = Some ''no_match''
      \<and> lat_corrected (persisted_row env' today r' w') = None
      \<and> lon_corrected (persisted_row env' today r' w') = None
      \<and> confidence_score (persisted_row env' today r' w') = Some 0
      \<and> needs_manual_review (persisted_row env' today r' w') = Some True
      \<and> log_method (persisted_entry env' r' w') = ''no_match''
      \<and> log_confidence (persisted_entry env' r' w') = 0)"
proof (intro conjI impI)
  assume "requests_get env
        (py_strip (name r) @ '', '' @ py_strip (postcode r) @ '', United Kingdom'') w
      = (Inl e, w1)"
  then have n: "nominatim_search env (py_strip (name r)) (py_strip (postcode r)) w = (Inl e, w1)"
    by (rule nominatim_search_raised)
  have v: "fst (process_record env r w) =
     \<lparr>lat = None, lon = None, confidence = 0, needs_review = True,
       method_tag = ''no_match'', intent = ''public_entrance'',
       notes_list = [''Nominatim failed: '' @ str e, ''No geocode match'',
         ''Missing coordinates'']\<rparr>"
    by (simp add: process_record_lookup [OF lookup_nominatim_failed [OF n]] finalize_def)
  have cn: "change_note (persisted_row env today r w) =
          Some (''Nominatim failed: '' @ str e @ '' No geocode match Missing coordinates'')"
    unfolding persisted_row_fields v by simp
  show "correction_method (persisted_row env today r w) = Some ''no_match''"
    "lat_corrected (persisted_row env today r w) = None"
    "lon_corrected (persisted_row env today r w) = None"
    "confidence_score (persisted_row env today r w) = Some 0"
    "needs_manual_review (persisted_row env today r w) = Some True"
    "log_method (persisted_entry env r w) = ''no_match''"
    "log_confidence (persisted_entry env r w) = 0"
    unfolding persisted_row_fields persisted_entry_fields v by simp_all
  show "change_note (persisted_row env today r w) =
          Some (''Nominatim failed: '' @ str e @ '' No geocode match Missing coordinates'')"
    by (rule cn)
  have "sublist ''Nominatim failed:''
      ([] @ ''Nominatim failed:'' @ ('' '' @ str e @ '' No geocode match Missing coordinates''))"
    by (rule sublist_appendI)
  then show "sublist ''Nominatim failed:'' (the (change_note (persisted_row env today r w)))"
    unfolding cn by simp
  have "sublist ''No geocode match''
      ((''Nominatim failed: '' @ str e @ '' '') @ ''No geocode match'' @ '' Missing coordinates'')"
    by (rule sublist_appendI)
  then show "sublist ''No geocode match'' (the (change_note (persisted_row env today r w)))"
    unfolding cn by simp
next
  assume "requests_get env'
        (py_strip (name r') @ '', '' @ py_strip (postcode r') @ '', United Kingdom'') w'
      = (Inr [], w1')"
  then have n: "nominatim_search env' (py_strip (name r')) (py_strip (postcode r')) w' =
      (Inr None, w1')"
    by (rule nominatim_search_empty)
  have v: "fst (process_record env' r' w') =
     \<lparr>lat = None, lon = None, confidence = 0, needs_review = True,
       method_tag = ''no_match'', intent = ''public_entrance'',
       notes_list = [''Nominatim OK'', ''No geocode match'', ''Missing coordinates'']\<rparr>"
    by (simp add: process_record_lookup [OF lookup_no_match [OF n]] finalize_def)
  show "correction_method (persisted_row env' today r' w') = Some ''no_match''"
    "lat_corrected (persisted_row env' today r' w') = None"
    "lon_corrected (persisted_row env' today r' w') = None"
    "confidence_score (persisted_row env' today r' w') = Some 0"
    "needs_manual_review (persisted_row env' today r' w') = Some True"
    "log_method (persisted_entry env' r' w') = ''no_match''"
    "log_confidence (persisted_entry env' r' w') = 0"
    unfolding persisted_row_fields persisted_entry_fields v by simp_all
qed

theorem nominatim_failure_persisted_as_no_match_witness:
  "requests_get env_down
        (py_strip (name row_acme) @ '', '' @ py_strip (postcode row_acme) @ '', United Kingdom'') 0
      = (Inl (Exception ''503 Server Error''), 1)
   \<and> requests_get env_empty
        (py_strip (name row_hall) @ '', '' @ py_strip (postcode row_hall) @ '', United Kingdom'') 0
      = (Inr [], 1)
   \<and> change_note (persisted_row env_down ''2026-01-15'' row_acme 0) =
          Some ''Nominatim failed: 503 Server Error No geocode match Missing coordinates''
   \<and> correction_method (persisted_row env_down ''2026-01-15'' row_acme 0) =
       correction_method (persisted_row env_empty ''2026-01-15'' row_hall 0)
   \<and> confidence_score (persisted_row env_down ''2026-01-15'' row_acme 0) =
       confidence_score (persisted_row env_empty ''2026-01-15'' row_hall 0)"
proof -
  have a: "requests_get env_down
        (py_strip (name row_acme) @ '', '' @ py_strip (postcode row_acme) @ '', United Kingdom'') 0
      = (Inl (Exception ''503 Server Error''), 1)"
    by (simp add: env_down_def)
  have b: "requests_get env_empty
        (py_strip (name row_hall) @ '', '' @ py_strip (postcode row_hall) @ '', United Kingdom'') 0
      = (Inr [], 1)"
    by (simp add: env_empty_def)
  show ?thesis
    using a b
      nominatim_failure_persisted_as_no_match
        [of env_down row_acme 0 "Exception ''503 Server Error''" 1 "''2026-01-15''"
            env_empty row_hall 0 1]
    by simp
qed

subsection \<open>The final plausibility check\<close>

text \<open>
  C2. When the lookup of a record ends with both coordinates present and the point is
  outside the box (latitude from 49.8 to 60.9, longitude from -8.6 to 1.8), the final
  check sets \<open>needs_review\<close>, appends the note "Implausible UK bounds" and replaces the
  confidence by its minimum with 20; nothing else changes, so the persisted method, intent
  and coordinates are those of the lookup.
\<close>

theorem implausible_point_finalized:
  assumes "lookup env (py_strip (name r)) (py_strip (postcode r)) w = (v, ev, w')"
    and "lat v = Some la" and "lon v = Some lo"
    and "\<not> (49.8 \<le> la \<and> la \<le> 60.9 \<and> -8.6 \<le> lo \<and> lo \<le> 1.8)"
  shows "fst (process_record env r w) = finalize v
     \<and> finalize v =
         v\<lparr>needs_review := True,
           notes_list := notes_list v @ [''Implausible UK bounds''],
           confidence := min (confidence v) 20\<rparr>
     \<and> needs_manual_review (persisted_row env today r w) = Some True
     \<and> confidence_score (persisted_row env today r w) = Some (min (confidence v) 20)
     \<and> change_note (persisted_row env today r w) =
         Some (join_sp (notes_list v @ [''Implausible UK bounds'']))
     \<and> correction_method (persisted_row env today r w) = Some (method_tag v)
     \<and> point_intent (persisted_row env today r w) = Some (intent v)
     \<and> lat_corrected (persisted_row env today r w) = Some la
     \<and> lon_corrected (persisted_row env today r w) = Some lo"
proof -
  have p: "fst (process_record env r w) = finalize v"
    using assms(1) by (simp add: process_record_lookup)
  have f: "finalize v =
         v\<lparr>needs_review := True,
           notes_list := notes_list v @ [''Implausible UK bounds''],
           confidence := min (confidence v) 20\<rparr>"
    using assms(2-4) by (simp add: finalize_def is_plausible_uk_def)
  show ?thesis
    unfolding persisted_row_fields p
    using f assms(2,3) by simp
qed

theorem implausible_point_finalized_witness:
  "lookup env_north (py_strip (name row_acme)) (py_strip (postcode row_acme)) 0 =
     (\<lparr>lat = Some 61, lon = Some 0, confidence = 60, needs_review = True,
       method_tag = ''nominatim_poi'', intent = ''public_entrance'',
       notes_list = [''Nominatim OK'', ''Nominatim POI match'', ''Overpass failed: timed out'',
         ''No entrance node; using POI location (likely centroid/site point)'']\<rparr>,
      [Request Nominatim True, Sleep NOMINATIM_SLEEP_S, Request Overpass False], 2)
   \<and> \<not> (49.8 \<le> (61::real) \<and> (61::real) \<le> 60.9 \<and> -8.6 \<le> (0::real) \<and> (0::real) \<le> 1.8)
   \<and> needs_manual_review (persisted_row env_north ''2026-01-15'' row_acme 0) = Some True
   \<and> confidence_score (persisted_row env_north ''2026-01-15'' row_acme 0) = Some 20
   \<and> correction_method (persisted_row env_north ''2026-01-15'' row_acme 0) = Some ''nominatim_poi''
   \<and> point_intent (persisted_row env_north ''2026-01-15'' row_acme 0) = Some ''public_entrance''
   \<and> change_note (persisted_row env_north ''2026-01-15'' row_acme 0) =
       Some (''Nominatim OK Nominatim POI match Overpass failed: timed out '' @
             ''No entrance node; using POI location (likely centroid/site point) '' @
             ''Implausible UK bounds'')"
proof -
  let ?v = "\<lparr>lat = Some 61, lon = Some 0, confidence = 60, needs_review = True,
       method_tag = ''nominatim_poi'', intent = ''public_entrance'',
       notes_list = [''Nominatim OK'', ''Nominatim POI match'', ''Overpass failed: timed out'',
         ''No entrance node; using POI location (likely centroid/site point)'']\<rparr>"
  have n: "nominatim_search env_north (py_strip (name row_acme))
      (py_strip (postcode row_acme)) 0 = (Inr (Some poi_north), 1)"
    by (simp add: nominatim_search_def env_north_def)
  have o: "overpass_find_entrance env_north (poi_lat poi_north) (poi_lon poi_north)
      ENTRANCE_RADIUS_M 1 = (Inl (Exception ''timed out''), 2)"
    by (simp add: overpass_find_entrance_def env_north_def)
  have l: "lookup env_north (py_strip (name row_acme)) (py_strip (postcode row_acme)) 0 =
     (?v, [Request Nominatim True, Sleep NOMINATIM_SLEEP_S, Request Overpass False], 2)"
    by (simp add: lookup_overpass_failed [OF n o] poi_north_def)
  have box: "\<not> (49.8 \<le> (61::real) \<and> (61::real) \<le> 60.9 \<and> -8.6 \<le> (0::real) \<and> (0::real) \<le> 1.8)"
    by simp
  have la: "lat ?v = Some 61" and lo: "lon ?v = Some 0"
    by simp_all
  show ?thesis
    using l box implausible_point_finalized [OF l la lo box, of "''2026-01-15''"]
    by simp
qed

subsection \<open>An entrance was found\<close>

text \<open>
  C3. When Nominatim returns a candidate and \<open>overpass_find_entrance\<close> returns an
  element, the lookup ends with the coordinates of that element, method
  "overpass_entrance", confidence 85, intent "main_entrance" if the entrance tag of the
  element is "main" and "entrance_nearby" otherwise, and "Entrance node found" as the last
  note. The persisted confidence is 85 if the point is inside the box and 20 otherwise.
\<close>

theorem entrance_found_outcome:
  assumes "nominatim_search env (py_strip (name r)) (py_strip (postcode r)) w =
      (Inr (Some p), w1)"
    and "overpass_find_entrance env (poi_lat p) (poi_lon p) ENTRANCE_RADIUS_M w1 =
      (Inr (Some (la, lo, el)), w2)"
  shows "la = el_lat el \<and> lo = el_lon el
     \<and> fst (lookup env (py_strip (name r)) (py_strip (postcode r)) w) =
         \<lparr>lat = Some la, lon = Some lo, confidence = 85, needs_review = False,
          method_tag = ''overpass_entrance'',
          intent = (if tags_of el ''entrance'' = Some ''main''
                    then ''main_entrance'' else ''entrance_nearby''),
          notes_list = [''Nominatim OK'', ''Nominatim POI match'', ''Overpass OK'',
            ''Entrance node found'']\<rparr>
     \<and> lat_corrected (persisted_row env today r w) = Some la
     \<and> lon_corrected (persisted_row env today r w) = Some lo
     \<and> correction_method (persisted_row env today r w) = Some ''overpass_entrance''
     \<and> point_intent (persisted_row env today r w) =
         Some (if tags_of el ''entrance'' = Some ''main''
               then ''main_entrance'' else ''entrance_nearby'')
     \<and> confidence_score (persisted_row env today r w) =
         Some (if is_plausible_uk la lo then 85 else 20)"
proof -
  have pt: "la = el_lat el \<and> lo = el_lon el"
    using assms(2)
    by (auto simp: overpass_find_entrance_def best_of_def
        split: prod.splits sum.splits if_splits list.splits)
  have l: "fst (lookup env (py_strip (name r)) (py_strip (postcode r)) w) =
         \<lparr>lat = Some la, lon = Some lo, confidence = 85, needs_review = False,
          method_tag = ''overpass_entrance'',
          intent = (if tags_of el ''entrance'' = Some ''main''
                    then ''main_entrance'' else ''entrance_nearby''),
          notes_list = [''Nominatim OK'', ''Nominatim POI match'', ''Overpass OK'',
            ''Entrance node found'']\<rparr>"
    by (simp add: lookup_entrance [OF assms])
  have p: "fst (process_record env r w) =
      finalize (fst (lookup env (py_strip (name r)) (py_strip (postcode r)) w))"
    by (simp add: process_record_def split: prod.splits)
  have c: "confidence (fst (process_record env r w)) = (if is_plausible_uk la lo then 85 else 20)"
    unfolding p l by (simp add: finalize_def)
  show ?thesis
    using pt l c unfolding persisted_row_fields p finalize_fields by simp
qed

theorem entrance_found_outcome_witness:
  "nominatim_search env_entrance (py_strip (name row_acme)) (py_strip (postcode row_acme)) 0 =
      (Inr (Some poi_newcastle), 1)
   \<and> overpass_find_entrance env_entrance (poi_lat poi_newcastle) (poi_lon poi_newcastle)
      ENTRANCE_RADIUS_M 1 = (Inr (Some (el_lat el_main, el_lon el_main, el_main)), 2)
   \<and> lat_corrected (persisted_row env_entrance ''2026-01-15'' row_acme 0) = Some 54.9701
   \<and> lon_corrected (persisted_row env_entrance ''2026-01-15'' row_acme 0) = Some (-1.6099)
   \<and> correction_method (persisted_row env_entrance ''2026-01-15'' row_acme 0) =
       Some ''overpass_entrance''
   \<and> point_intent (persisted_row env_entrance ''2026-01-15'' row_acme 0) = Some ''main_entrance''
   \<and> confidence_score (persisted_row env_entrance ''2026-01-15'' row_acme 0) = Some 85"
proof -
  have n: "nominatim_search env_entrance (py_strip (name row_acme))
      (py_strip (postcode row_acme)) 0 = (Inr (Some poi_newcastle), 1)"
    by (simp add: nominatim_search_def env_entrance_def)
  have o: "overpass_find_entrance env_entrance (poi_lat poi_newcastle) (poi_lon poi_newcastle)
      ENTRANCE_RADIUS_M 1 = (Inr (Some (el_lat el_main, el_lon el_main, el_main)), 2)"
    by (simp add: overpass_find_entrance_def env_entrance_def best_of_def scenario_scores)
  have pl: "is_plausible_uk (el_lat el_main) (el_lon el_main)"
    by (simp add: is_plausible_uk_def el_main_def)
  have tg: "tags_of el_main ''entrance'' = Some ''main''"
    by (simp add: tags_of_def el_main_def)
  have ll: "el_lat el_main = 54.9701" "el_lon el_main = -1.6099"
    by (simp_all add: el_main_def)
  show ?thesis
    using n o pl tg entrance_found_outcome [OF n o, of "''2026-01-15''"]
    by (simp add: ll)
qed

subsection \<open>The review flag\<close>

text \<open>
  C8. \<open>needs_manual_review\<close> is persisted as false exactly when Nominatim returned a
  candidate, \<open>overpass_find_entrance\<close> returned an element, and the point of that element
  is inside the box; the method is then "overpass_entrance". In every other case the flag
  is persisted as true.
\<close>

theorem review_flag_false_iff_plausible_entrance:
  "(needs_manual_review (persisted_row env today r w) = Some False \<longleftrightarrow>
      (\<exists>p w1 la lo el w2.
        nominatim_search env (py_strip (name r)) (py_strip (postcode r)) w = (Inr (Some p), w1)
        \<and> overpass_find_entrance env (poi_lat p) (poi_lon p) ENTRANCE_RADIUS_M w1 =
            (Inr (Some (la, lo, el)), w2)
        \<and> is_plausible_uk la lo))
   \<and> (needs_manual_review (persisted_row env today r w) \<noteq> Some False \<longrightarrow>
        needs_manual_review (persisted_row env today r w) = Some True)
   \<and> (needs_manual_review (persisted_row env today r w) = Some False \<longrightarrow>
        correction_method (persisted_row env today r w) = Some ''overpass_entrance'')"
proof (intro conjI impI)
  show "needs_manual_review (persisted_row env today r w) = Some False \<longleftrightarrow>
      (\<exists>p w1 la lo el w2.
        nominatim_search env (py_strip (name r)) (py_strip (postcode r)) w = (Inr (Some p), w1)
        \<and> overpass_find_entrance env (poi_lat p) (poi_lon p) ENTRANCE_RADIUS_M w1 =
            (Inr (Some (la, lo, el)), w2)
        \<and> is_plausible_uk la lo)"
    unfolding persisted_row_fields using final_needs_review [of env r w] by simp
next
  assume "needs_manual_review (persisted_row env today r w) \<noteq> Some False"
  then show "needs_manual_review (persisted_row env today r w) = Some True"
    unfolding persisted_row_fields by simp
next
  assume "needs_manual_review (persisted_row env today r w) = Some False"
  then have "\<not> needs_review (fst (process_record env r w))"
    unfolding persisted_row_fields by simp
  then obtain p w1 la lo el w2 where
    n: "nominatim_search env (py_strip (name r)) (py_strip (postcode r)) w = (Inr (Some p), w1)"
    and o: "overpass_find_entrance env (poi_lat p) (poi_lon p) ENTRANCE_RADIUS_M w1 =
            (Inr (Some (la, lo, el)), w2)"
    using final_needs_review [of env r w] by blast
  show "correction_method (persisted_row env today r w) = Some ''overpass_entrance''"
    unfolding persisted_row_fields
    by (simp add: process_record_lookup [OF lookup_entrance [OF n o]] finalize_fields)
qed

theorem review_flag_false_iff_plausible_entrance_witness:
  "needs_manual_review (persisted_row env_entrance ''2026-01-15'' row_acme 0) = Some False
   \<and> correction_method (persisted_row env_entrance ''2026-01-15'' row_acme 0) =
       Some ''overpass_entrance''
   \<and> needs_manual_review (persisted_row env_north ''2026-01-15'' row_acme 0) \<noteq> Some False
   \<and> needs_manual_review (persisted_row env_north ''2026-01-15'' row_acme 0) = Some True"
proof -
  have a: "needs_manual_review (persisted_row env_entrance ''2026-01-15'' row_acme 0) = Some False"
    by (simp add: persisted_row_fields run_entrance_acme)
  have b: "needs_manual_review (persisted_row env_north ''2026-01-15'' row_acme 0) \<noteq> Some False"
    by (simp add: persisted_row_fields run_north_acme)
  show ?thesis
    using a b
      review_flag_false_iff_plausible_entrance [of env_entrance "''2026-01-15''" row_acme 0]
      review_flag_false_iff_plausible_entrance [of env_north "''2026-01-15''" row_acme 0]
    by blast
qed

section \<open>The pipeline\<close>

subsection \<open>One output row and one changelog entry per input row\<close>

lemma rows_loop_structure:
  "fst (rows_loop env today df w) = map2 (persisted_row env today) df (worlds env df w)
   \<and> fst (snd (rows_loop env today df w)) = map2 (persisted_entry env) df (worlds env df w)
   \<and> length (worlds env df w) = length df"
proof (induction df arbitrary: w)
  case Nil
  show ?case by simp
next
  case (Cons r rs)
  obtain v ev w1 where p: "process_record env r w = (v, ev, w1)"
    by (cases "process_record env r w")
  obtain out cl evs w2 where l: "rows_loop env today rs w1 = (out, cl, evs, w2)"
    by (cases "rows_loop env today rs w1")
  show ?case
    using Cons.IH [of w1] p l by (simp add: persisted_row_def persisted_entry_def)
qed

lemma write_results_input_columns:
  "row_id (write_results today r v) = row_id r"
  "name (write_results today r v) = name r"
  "postcode (write_results today r v) = postcode r"
  "anchor_type (write_results today r v) = anchor_type r"
  "subtype (write_results today r v) = subtype r"
  "latitude (write_results today r v) = latitude r"
  "longitude (write_results today r v) = longitude r"
  by (simp_all add: write_results_def)

lemma changelog_entry_input_columns:
  "log_id (changelog_entry r v) = row_id r"
  "log_name (changelog_entry r v) = py_strip (name r)"
  "log_anchor_type (changelog_entry r v) = py_strip (anchor_type r)"
  "log_subtype (changelog_entry r v) = py_strip (subtype r)"
  "log_postcode (changelog_entry r v) = py_strip (postcode r)"
  "old_lat (changelog_entry r v) = latitude r"
  "old_lon (changelog_entry r v) = longitude r"
  by (simp_all add: changelog_entry_def)

lemma map_map2_fst:
  "length ys = length xs \<Longrightarrow> (\<And>x y. g (f x y) = h x) \<Longrightarrow> map g (map2 f xs ys) = map h xs"
  by (induction xs ys rule: list_induct2') auto

text \<open>
  C5. \<open>main\<close> writes as many rows and as many changelog entries as the data frame has
  rows. The row and the entry at each position are those persisted for the input row at
  the same position, so the input columns of the output equal those of the input in the
  same order, and the identifiers, names, postcodes and old coordinates of the changelog
  are those of the input rows in the same order.
\<close>

theorem one_output_and_one_entry_per_record:
  "length (out_rows (main env today df w)) = length df
   \<and> length (changelog_of (main env today df w)) = length df
   \<and> out_rows (main env today df w) = map2 (persisted_row env today) df (worlds env df w)
   \<and> changelog_of (main env today df w) = map2 (persisted_entry env) df (worlds env df w)
   \<and> map row_id (out_rows (main env today df w)) = map row_id df
   \<and> map name (out_rows (main env today df w)) = map name df
   \<and> map postcode (out_rows (main env today df w)) = map postcode df
   \<and> map anchor_type (out_rows (main env today df w)) = map anchor_type df
   \<and> map subtype (out_rows (main env today df w)) = map subtype df
   \<and> map latitude (out_rows (main env today df w)) = map latitude df
   \<and> map longitude (out_rows (main env today df w)) = map longitude df
   \<and> map log_id (changelog_of (main env today df w)) = map row_id df
   \<and> map log_name (changelog_of (main env today df w)) = map (\<lambda>r. py_strip (name r)) df
   \<and> map log_postcode (changelog_of (main env today df w)) = map (\<lambda>r. py_strip (postcode r)) df
   \<and> map old_lat (changelog_of (main env today df w)) = map latitude df
   \<and> map old_lon (changelog_of (main env today df w)) = map longitude df"
proof -
  note s = rows_loop_structure [of env today df w]
  have len: "length (worlds env df w) = length df"
    using s by simp
  have out: "out_rows (main env today df w) = map2 (persisted_row env today) df (worlds env df w)"
    using s by (simp add: out_rows_def main_def)
  have cl: "changelog_of (main env today df w) = map2 (persisted_entry env) df (worlds env df w)"
    using s by (simp add: changelog_of_def main_def)
  have l1: "length (out_rows (main env today df w)) = length df"
    unfolding out using len by simp
  have l2: "length (changelog_of (main env today df w)) = length df"
    unfolding cl using len by simp
  have cols: "map row_id (out_rows (main env today df w)) = map row_id df"
    "map name (out_rows (main env today df w)) = map name df"
    "map postcode (out_rows (main env today df w)) = map postcode df"
    "map anchor_type (out_rows (main env today df w)) = map anchor_type df"
    "map subtype (out_rows (main env today df w)) = map subtype df"
    "map latitude (out_rows (main env today df w)) = map latitude df"
    "map longitude (out_rows (main env today df w)) = map longitude df"
    unfolding out
    by (rule map_map2_fst [OF len], simp add: persisted_row_def write_results_input_columns)+
  have logs: "map log_id (changelog_of (main env today df w)) = map row_id df"
    "map log_name (changelog_of (main env today df w)) = map (\<lambda>r. py_strip (name r)) df"
    "map log_postcode (changelog_of (main env today df w)) = map (\<lambda>r. py_strip (postcode r)) df"
    "map old_lat (changelog_of (main env today df w)) = map latitude df"
    "map old_lon (changelog_of (main env today df w)) = map longitude df"
    unfolding cl
    by (rule map_map2_fst [OF len], simp add: persisted_entry_def changelog_entry_input_columns)+
  show ?thesis
    using l1 l2 out cl cols logs by blast
qed

subsection \<open>Running the pipeline on its own output\<close>

lemma process_record_cong:
  "name r = name r' \<Longrightarrow> postcode r = postcode r' \<Longrightarrow>
   process_record env r w = process_record env r' w"
  by (simp add: process_record_def)

lemma corrected_columns_write_results:
  "corrected_columns (write_results today r v) = corrected_columns (write_results today' r' v)"
  by (simp add: corrected_columns_def write_results_def)

lemma rows_loop_corrected_cong:
  assumes "list_all2 (\<lambda>r r'. name r = name r' \<and> postcode r = postcode r') df df'"
  shows "map corrected_columns (fst (rows_loop env today df w)) =
         map corrected_columns (fst (rows_loop env today' df' w))"
  using assms
proof (induction arbitrary: w rule: list_all2_induct)
  case Nil
  show ?case by simp
next
  case (Cons r rs r' rs')
  obtain v ev w1 where p: "process_record env r w = (v, ev, w1)"
    by (cases "process_record env r w")
  have p': "process_record env r' w = (v, ev, w1)"
    using Cons.hyps(1) p process_record_cong [of r r' env w] by simp
  obtain out cl evs w2 where l: "rows_loop env today rs w1 = (out, cl, evs, w2)"
    by (cases "rows_loop env today rs w1")
  obtain out' cl' evs' w2' where l': "rows_loop env today' rs' w1 = (out', cl', evs', w2')"
    by (cases "rows_loop env today' rs' w1")
  have "map corrected_columns out = map corrected_columns out'"
    using Cons.IH [of w1] l l' by simp
  then show ?case
    using p p' l l' corrected_columns_write_results [of today r v today' r'] by simp
qed

lemma rerun_input_write_results:
  "write_results today (rerun_input (write_results today r v)) v =
   rerun_input (write_results today r v)"
  by (simp add: write_results_def rerun_input_def)

lemma rerun_input_name_postcode:
  "name (rerun_input (write_results today r v)) = name r"
  "postcode (rerun_input (write_results today r v)) = postcode r"
  by (simp_all add: write_results_def rerun_input_def)

lemma rows_loop_rerun_fixpoint:
  "fst (rows_loop env today (map rerun_input (fst (rows_loop env today df w))) w) =
   map rerun_input (fst (rows_loop env today df w))"
proof (induction df arbitrary: w)
  case Nil
  show ?case by simp
next
  case (Cons r rs)
  obtain v ev w1 where p: "process_record env r w = (v, ev, w1)"
    by (cases "process_record env r w")
  obtain out cl evs w2 where l: "rows_loop env today rs w1 = (out, cl, evs, w2)"
    by (cases "rows_loop env today rs w1")
  have p': "process_record env (rerun_input (write_results today r v)) w = (v, ev, w1)"
    using p process_record_cong [of "rerun_input (write_results today r v)" r env w]
    by (simp add: rerun_input_name_postcode)
  obtain out' cl' evs' w2' where
    l': "rows_loop env today (map rerun_input out) w1 = (out', cl', evs', w2')"
    by (cases "rows_loop env today (map rerun_input out) w1")
  have "out' = map rerun_input out"
    using Cons.IH [of w1] l l' by simp
  then show ?case
    using p p' l l' by (simp add: rerun_input_write_results)
qed

lemma list_all2_name_postcode:
  assumes "map name df' = map name df" and "map postcode df' = map postcode df"
  shows "list_all2 (\<lambda>r r'. name r = name r' \<and> postcode r = postcode r') df df'"
proof -
  have len: "length df = length df'"
    using assms(1) by (metis length_map)
  have "name (df ! i) = name (df' ! i) \<and> postcode (df ! i) = postcode (df' ! i)"
    if "i < length df" for i
  proof -
    have "map name df' ! i = map name df ! i" "map postcode df' ! i = map postcode df ! i"
      using assms by simp_all
    then show ?thesis using that len by simp
  qed
  then show ?thesis
    using len by (simp add: list_all2_conv_all_nth)
qed

text \<open>
  C6. Run \<open>main\<close> on a data frame, take its output with the corrected coordinates as the
  new original coordinates, and run \<open>main\<close> on it with the same services in the same
  world. On the same day the second run writes its input back unchanged; on any day the
  columns it computes, the date apart, are those of the first run. More generally two
  data frames with the same names and postcodes get the same computed columns, whatever
  their coordinates and earlier corrected columns.
\<close>

theorem rerun_yields_same_corrected_columns:
  "out_rows (main env today (map rerun_input (out_rows (main env today df w))) w) =
     map rerun_input (out_rows (main env today df w))
   \<and> map corrected_columns
        (out_rows (main env today' (map rerun_input (out_rows (main env today df w))) w)) =
      map corrected_columns (out_rows (main env today df w))
   \<and> (map name df' = map name df \<and> map postcode df' = map postcode df \<longrightarrow>
        map corrected_columns (out_rows (main env today' df' w)) =
        map corrected_columns (out_rows (main env today df w)))"
proof (intro conjI impI)
  show "out_rows (main env today (map rerun_input (out_rows (main env today df w))) w) =
     map rerun_input (out_rows (main env today df w))"
    by (simp add: main_def out_rows_def rows_loop_rerun_fixpoint)
next
  assume "map name df' = map name df \<and> map postcode df' = map postcode df"
  then have "list_all2 (\<lambda>r r'. name r = name r' \<and> postcode r = postcode r') df df'"
    by (simp add: list_all2_name_postcode)
  from rows_loop_corrected_cong [OF this, of env today w today']
  show "map corrected_columns (out_rows (main env today' df' w)) =
        map corrected_columns (out_rows (main env today df w))"
    by (simp add: main_def out_rows_def)
next
  let ?out = "out_rows (main env today df w)"
  have len: "length (worlds env df w) = length df"
    using rows_loop_structure [of env today df w] by simp
  have out: "?out = map2 (persisted_row env today) df (worlds env df w)"
    using rows_loop_structure [of env today df w] by (simp add: main_def out_rows_def)
  have "map (\<lambda>x. name (rerun_input x)) (map2 (persisted_row env today) df (worlds env df w)) =
      map name df"
    by (rule map_map2_fst [OF len]) (simp add: persisted_row_def rerun_input_name_postcode)
  moreover have "map (\<lambda>x. postcode (rerun_input x))
      (map2 (persisted_row env today) df (worlds env df w)) = map postcode df"
    by (rule map_map2_fst [OF len]) (simp add: persisted_row_def rerun_input_name_postcode)
  ultimately have n: "map name (map rerun_input ?out) = map name df"
    "map postcode (map rerun_input ?out) = map postcode df"
    unfolding out by (simp_all add: o_def)
  then have "list_all2 (\<lambda>r r'. name r = name r' \<and> postcode r = postcode r') df
      (map rerun_input ?out)"
    by (simp add: list_all2_name_postcode)
  from rows_loop_corrected_cong [OF this, of env today w today']
  show "map corrected_columns (out_rows (main env today' (map rerun_input ?out) w)) =
      map corrected_columns ?out"
    by (simp add: main_def out_rows_def)
qed

theorem rerun_yields_same_corrected_columns_witness:
  "map name [row_acme_moved] = map name [row_acme]
   \<and> map postcode [row_acme_moved] = map postcode [row_acme]
   \<and> latitude row_acme_moved \<noteq> latitude row_acme
   \<and> lat_corrected row_acme_moved \<noteq> lat_corrected row_acme
   \<and> map corrected_columns (out_rows (main env_entrance ''2026-02-01'' [row_acme_moved] 0)) =
      map corrected_columns (out_rows (main env_entrance ''2026-01-15'' [row_acme] 0))"
proof -
  have a: "map name [row_acme_moved] = map name [row_acme]
      \<and> map postcode [row_acme_moved] = map postcode [row_acme]"
    by (simp add: row_acme_moved_def)
  have b: "latitude row_acme_moved \<noteq> latitude row_acme"
    "lat_corrected row_acme_moved \<noteq> lat_corrected row_acme"
    by (simp_all add: row_acme_moved_def row_acme_def)
  show ?thesis
    using a b
      rerun_yields_same_corrected_columns
        [of env_entrance "''2026-01-15''" "[row_acme]" 0 "''2026-02-01''" "[row_acme_moved]"]
    by blast
qed

subsection \<open>Throttling\<close>

lemma process_record_events:
  "fst (snd (process_record env r w)) \<in>
     {[Request Nominatim False],
      [Request Nominatim True, Sleep NOMINATIM_SLEEP_S],
      [Request Nominatim True, Sleep NOMINATIM_SLEEP_S, Request Overpass False],
      [Request Nominatim True, Sleep NOMINATIM_SLEEP_S, Request Overpass True,
       Sleep OVERPASS_SLEEP_S]}"
proof (cases rule: lookup_cases [of env "py_strip (name r)" "py_strip (postcode r)" w])
  case (nominatim_failed e w1)
  then show ?thesis
    by (simp add: process_record_lookup [OF lookup_nominatim_failed])
next
  case (no_match w1)
  then show ?thesis
    by (simp add: process_record_lookup [OF lookup_no_match])
next
  case (overpass_failed p w1 e w2)
  then show ?thesis
    by (simp add: process_record_lookup [OF lookup_overpass_failed])
next
  case (no_entrance p w1 w2)
  then show ?thesis
    by (simp add: process_record_lookup [OF lookup_no_entrance])
next
  case (entrance p w1 la lo el w2)
  then show ?thesis
    by (simp add: process_record_lookup [OF lookup_entrance])
qed

lemma rows_loop_events_invariant:
  "sleep_follows_success (fst (snd (snd (rows_loop env today df w))))
   \<and> (\<forall>d. Sleep d \<in> set (fst (snd (snd (rows_loop env today df w)))) \<longrightarrow> 0 \<le> d)"
proof (induction df arbitrary: w)
  case Nil
  show ?case by simp
next
  case (Cons r rs)
  obtain v ev w1 where p: "process_record env r w = (v, ev, w1)"
    by (cases "process_record env r w")
  obtain out cl evs w2 where l: "rows_loop env today rs w1 = (out, cl, evs, w2)"
    by (cases "rows_loop env today rs w1")
  have ih: "sleep_follows_success evs" "\<forall>d. Sleep d \<in> set evs \<longrightarrow> 0 \<le> d"
    using Cons.IH [of w1] l by simp_all
  have ev: "ev \<in>
     {[Request Nominatim False],
      [Request Nominatim True, Sleep NOMINATIM_SLEEP_S],
      [Request Nominatim True, Sleep NOMINATIM_SLEEP_S, Request Overpass False],
      [Request Nominatim True, Sleep NOMINATIM_SLEEP_S, Request Overpass True,
       Sleep OVERPASS_SLEEP_S]}"
    using process_record_events [of env r w] p by simp
  have "sleep_follows_success (ev @ evs)"
    using ev ih(1) by auto
  moreover have "\<forall>d. Sleep d \<in> set (ev @ evs) \<longrightarrow> 0 \<le> d"
    using ev ih(2) by (auto simp: NOMINATIM_SLEEP_S_def OVERPASS_SLEEP_S_def)
  ultimately show ?case
    using p l by simp
qed

lemma slept_before_next_nonneg:
  "(\<forall>d. Sleep d \<in> set es \<longrightarrow> 0 \<le> d) \<Longrightarrow> slept_before_next k es = Some t \<Longrightarrow> 0 \<le> t"
proof (induction k es arbitrary: t rule: slept_before_next.induct)
  case (1 k)
  then show ?case by simp
next
  case (2 k d es)
  then show ?case by auto
next
  case (3 k k' ok es)
  then show ?case by (auto split: if_splits)
qed

lemma sleep_follows_success_throttled:
  "sleep_follows_success es \<Longrightarrow> (\<forall>d. Sleep d \<in> set es \<longrightarrow> 0 \<le> d) \<Longrightarrow>
   throttled_after_success es"
proof (induction es rule: throttled_after_success.induct)
  case 1
  show ?case by simp
next
  case (2 d es)
  then show ?case by simp
next
  case (3 k ok es)
  show ?case
  proof (cases ok)
    case False
    then show ?thesis using 3 by simp
  next
    case True
    then obtain d es' where es: "es = Sleep d # es'" "d = min_interval k"
      using "3.prems"(1) by (auto split: list.splits event.splits)
    have rest: "throttled_after_success es"
      using 3 True by simp
    have "min_interval k \<le> t" if "slept_before_next k es = Some t" for t
    proof -
      have "map_option ((+) d) (slept_before_next k es') = Some t"
        using that unfolding es(1) by simp
      then obtain t' where t': "slept_before_next k es' = Some t'" "t = d + t'"
        by auto
      have "0 \<le> t'"
        using slept_before_next_nonneg [of es' k t'] t'(1) "3.prems"(2) es by simp
      then show ?thesis using t'(2) es(2) by simp
    qed
    then show ?thesis
      using True rest by (simp split: option.splits)
  qed
qed

text \<open>
  C10, as stated: between two consecutive requests to the same service the script waits
  at least the interval of that service. The script sleeps only after a call that
  returned, inside the \<open>try\<close>; when Nominatim raises for two rows in a row, the second
  request follows the failure of the first with no sleep between them.
\<close>

theorem throttle_counterexample:
  "\<not> throttled (events_of (main env_down ''2026-01-15'' [row_acme, row_hall] 0))"
proof -
  have "process_record env_down row_hall 1 =
     (\<lparr>lat = None, lon = None, confidence = 0, needs_review = True,
       method_tag = ''no_match'', intent = ''public_entrance'',
       notes_list = [''Nominatim failed: 503 Server Error'', ''No geocode match'',
         ''Missing coordinates'']\<rparr>,
      [Request Nominatim False], 2)"
    by (simp add: process_record_def lookup_def nominatim_search_def env_down_def finalize_def)
  then have "events_of (main env_down ''2026-01-15'' [row_acme, row_hall] 0) =
      [Request Nominatim False, Request Nominatim False]"
    by (simp add: events_of_def main_def run_down_acme)
  then show ?thesis
    by (simp add: NOMINATIM_SLEEP_S_def)
qed

text \<open>
  C10, amended: the event after every request that returned is a sleep of the interval of
  that service (1.1 seconds), so between a request that returned and the next request to
  the same service the script sleeps at least that interval. The sleep follows the call;
  there is no clock per service.
\<close>

theorem sleep_after_each_successful_request:
  "sleep_follows_success (events_of (main env today df w))
   \<and> throttled_after_success (events_of (main env today df w))"
  using rows_loop_events_invariant [of env today df w]
    sleep_follows_success_throttled [of "events_of (main env today df w)"]
  by (simp add: events_of_def main_def)

theorem sleep_after_each_successful_request_witness:
  "events_of (main env_entrance ''2026-01-15'' [row_acme] 0) =
     [Request Nominatim True, Sleep 1.1, Request Overpass True, Sleep 1.1]
   \<and> sleep_follows_success (events_of (main env_entrance ''2026-01-15'' [row_acme] 0))
   \<and> throttled_after_success (events_of (main env_entrance ''2026-01-15'' [row_acme] 0))"
proof -
  have "events_of (main env_entrance ''2026-01-15'' [row_acme] 0) =
     [Request Nominatim True, Sleep 1.1, Request Overpass True, Sleep 1.1]"
    by (simp add: events_of_def main_def run_entrance_acme NOMINATIM_SLEEP_S_def
        OVERPASS_SLEEP_S_def)
  then show ?thesis
    using sleep_after_each_successful_request [of env_entrance "''2026-01-15''" "[row_acme]" 0]
    by blast
qed

end
